theory Spec2Isabelle
  imports Complex_Main
begin

section \<open>Data model (types/database.ts)\<close>

text \<open>
  Representation choices, used throughout.
  \<^item> A JavaScript number that holds seconds, minutes or milliseconds is an \<open>int\<close>.
  \<^item> A date string (\<open>PlaybackRecord.date\<close>, \<open>DailyGoal.date\<close>) is represented by the time
    value of the \<open>Date\<close> built from it, in milliseconds since the epoch: the code only ever
    reads such a string through \<open>new Date(s)\<close>. Strings that do not parse (time value NaN)
    are outside the model.
  \<^item> An optional string field is a \<open>string option\<close>, \<open>None\<close> standing for undefined and null.
  \<^item> Strings are \<open>char list\<close>s; whitespace and letter case are the ASCII ones.
  \<^item> \<open>language\<close> is a plain string: the type \<open>Language\<close> is not enforced at run time.
\<close>

record PlaybackRecord =
  sessionId :: string
  title :: string
  url :: string
  language :: string
  duration :: int
  date :: int
  channelName :: "string option"
  channelLogo :: "string option"

record TimelineSegment =
  segStart :: int
  segEnd :: int

record DisplayRecord = PlaybackRecord +
  mergedSessionIds :: "string list"
  totalDuration :: int
  startDate :: int
  isMerged :: bool
  spanStart :: int
  spanEnd :: int
  segments :: "TimelineSegment list"

text \<open>
  The local-time getters of \<open>Date\<close> belong to the JavaScript runtime and depend on its time
  zone. They are a parameter of the model: each field maps a time value to what the getter
  returns on the \<open>Date\<close> with that time value.
\<close>

record Runtime =
  getFullYear :: "int \<Rightarrow> int"
  getMonth :: "int \<Rightarrow> int"
  getDate :: "int \<Rightarrow> int"

section \<open>Merge engine (History: getVideoKey, buildDisplayRecords)\<close>

definition isWhiteSpace :: "char \<Rightarrow> bool" where
  "isWhiteSpace c = (c \<in> {CHR '' '', CHR 0x09, CHR 0x0A, CHR 0x0B, CHR 0x0C, CHR 0x0D})"

definition trim :: "string \<Rightarrow> string" where
  "trim s = rev (dropWhile isWhiteSpace (rev (dropWhile isWhiteSpace s)))"

definition lowerChar :: "char \<Rightarrow> char" where
  "lowerChar c =
     (case map_of (zip ''ABCDEFGHIJKLMNOPQRSTUVWXYZ'' ''abcdefghijklmnopqrstuvwxyz'') c of
        None \<Rightarrow> c
      | Some l \<Rightarrow> l)"

definition toLowerCase :: "string \<Rightarrow> string" where
  "toLowerCase s = map lowerChar s"

text \<open>\<open>x || ""\<close> on an optional string.\<close>

definition orEmpty :: "string option \<Rightarrow> string" where
  "orEmpty x = (case x of None \<Rightarrow> [] | Some s \<Rightarrow> s)"

text \<open>\<open>!x\<close> on an optional string: undefined, null and the empty string are falsy.\<close>

definition falsy :: "string option \<Rightarrow> bool" where
  "falsy x = (case x of None \<Rightarrow> True | Some s \<Rightarrow> s = [])"

definition getVideoKey :: "'a PlaybackRecord_scheme \<Rightarrow> string" where
  "getVideoKey record =
     (let channelKey = toLowerCase (trim (orEmpty (channelName record)));
          titleKey = toLowerCase (trim (title record))
      in channelKey @ ''::'' @ titleKey @ ''::'' @ language record)"

text \<open>The object literal \<open>{...record, mergedSessionIds: [record.sessionId], ...}\<close>.\<close>

definition singleton :: "PlaybackRecord \<Rightarrow> DisplayRecord" where
  "singleton record =
     (let startMs = date record;
          endMs = startMs + duration record * 1000
      in \<lparr> sessionId = sessionId record, title = title record, url = url record,
           language = language record, duration = duration record, date = date record,
           channelName = channelName record, channelLogo = channelLogo record,
           mergedSessionIds = [sessionId record],
           totalDuration = duration record,
           startDate = date record,
           isMerged = False,
           spanStart = startMs,
           spanEnd = endMs,
           segments = [\<lparr> segStart = startMs, segEnd = endMs \<rparr>] \<rparr>)"

text \<open>The three mutable locals of the merging branch.\<close>

record MergeState =
  merged :: "DisplayRecord list"
  current :: "DisplayRecord option"
  lastMergedDate :: "int option"

definition pushCurrent :: "DisplayRecord option \<Rightarrow> DisplayRecord list \<Rightarrow> DisplayRecord list" where
  "pushCurrent record mrg =
     (case record of
        None \<Rightarrow> mrg
      | Some r \<Rightarrow> mrg @ [r\<lparr> isMerged := 1 < length (mergedSessionIds r) \<rparr>])"

definition gapHours :: "int \<Rightarrow> int \<Rightarrow> real" where
  "gapHours prevDate currentDate = \<bar>real_of_int (prevDate - currentDate)\<bar> / (1000 * 60 * 60)"

definition crossesDay :: "Runtime \<Rightarrow> int \<Rightarrow> int \<Rightarrow> bool" where
  "crossesDay rt prevDate currentDate =
     (getFullYear rt prevDate \<noteq> getFullYear rt currentDate \<or>
      getMonth rt prevDate \<noteq> getMonth rt currentDate \<or>
      getDate rt prevDate \<noteq> getDate rt currentDate)"

definition shouldMerge :: "Runtime \<Rightarrow> DisplayRecord \<Rightarrow> int option \<Rightarrow> PlaybackRecord \<Rightarrow> bool" where
  "shouldMerge rt cur lmd record =
     (let prevDate = (case lmd of Some d \<Rightarrow> d | None \<Rightarrow> startDate cur);
          currentDate = date record
      in getVideoKey cur = getVideoKey record \<and>
         \<not> (crossesDay rt prevDate currentDate \<and> gapHours prevDate currentDate > 2))"

text \<open>The assignments of the \<open>if (shouldMerge)\<close> block, applied to the accumulator.\<close>

definition mergeInto :: "DisplayRecord \<Rightarrow> PlaybackRecord \<Rightarrow> DisplayRecord" where
  "mergeInto cur record =
     (let startMs = date record;
          endMs = startMs + duration record * 1000
      in cur\<lparr> totalDuration := totalDuration cur + duration record,
              startDate := (if startMs < startDate cur then date record else startDate cur),
              mergedSessionIds := mergedSessionIds cur @ [sessionId record],
              spanStart := min (spanStart cur) startMs,
              spanEnd := max (spanEnd cur) endMs,
              segments := segments cur @ [\<lparr> segStart = startMs, segEnd = endMs \<rparr>],
              channelLogo := (if falsy (channelLogo cur) then channelLogo record
                              else channelLogo cur),
              channelName := (if falsy (channelName cur) then channelName record
                              else channelName cur) \<rparr>)"

text \<open>One call of the \<open>records.forEach\<close> callback.\<close>

definition forEachBody :: "Runtime \<Rightarrow> MergeState \<Rightarrow> PlaybackRecord \<Rightarrow> MergeState" where
  "forEachBody rt s record =
     (case current s of
        Some cur \<Rightarrow>
          if shouldMerge rt cur (lastMergedDate s) record
          then s\<lparr> current := Some (mergeInto cur record),
                  lastMergedDate := Some (date record) \<rparr>
          else \<lparr> merged = pushCurrent (Some cur) (merged s),
                 current = Some (singleton record),
                 lastMergedDate = Some (date record) \<rparr>
      | None \<Rightarrow>
          \<lparr> merged = merged s,
            current = Some (singleton record),
            lastMergedDate = Some (date record) \<rparr>)"

definition initialState :: MergeState where
  "initialState = \<lparr> merged = [], current = None, lastMergedDate = None \<rparr>"

definition mergeLoop :: "Runtime \<Rightarrow> PlaybackRecord list \<Rightarrow> MergeState" where
  "mergeLoop rt records = foldl (forEachBody rt) initialState records"

definition buildDisplayRecords :: "Runtime \<Rightarrow> PlaybackRecord list \<Rightarrow> bool \<Rightarrow> DisplayRecord list" where
  "buildDisplayRecords rt records mergeConsecutive =
     (if \<not> mergeConsecutive then map singleton records
      else let s = mergeLoop rt records in pushCurrent (current s) (merged s))"

section \<open>A concrete runtime: the proleptic Gregorian calendar in UTC\<close>

text \<open>
  For evaluating the functions at concrete inputs: a runtime whose local time zone is UTC.
  \<open>civilFromDays\<close> turns a day number (days since 1970-01-01) into year, month (1 to 12)
  and day of month; \<open>daysFromCivil\<close> is its inverse. \<open>isoTime y m d hh mm ss\<close> is the time
  value of the ISO string \<open>y-m-dThh:mm:ssZ\<close>, and \<open>isoDay y m d\<close> that of the date-only
  string \<open>y-m-d\<close>, which JavaScript reads as UTC midnight.
\<close>

definition civilFromDays :: "int \<Rightarrow> int \<times> int \<times> int" where
  "civilFromDays days =
     (let z = days + 719468;
          era = z div 146097;
          doe = z - era * 146097;
          yoe = (doe - doe div 1460 + doe div 36524 - doe div 146096) div 365;
          y = yoe + era * 400;
          doy = doe - (365 * yoe + yoe div 4 - yoe div 100);
          mp = (5 * doy + 2) div 153;
          d = doy - (153 * mp + 2) div 5 + 1;
          m = (if mp < 10 then mp + 3 else mp - 9)
      in (if m \<le> 2 then y + 1 else y, m, d))"

definition daysFromCivil :: "int \<Rightarrow> int \<Rightarrow> int \<Rightarrow> int" where
  "daysFromCivil y m d =
     (let y' = (if m \<le> 2 then y - 1 else y);
          era = y' div 400;
          yoe = y' - era * 400;
          doy = (153 * (if m > 2 then m - 3 else m + 9) + 2) div 5 + d - 1;
          doe = yoe * 365 + yoe div 4 - yoe div 100 + doy
      in era * 146097 + doe - 719468)"

definition isoTime :: "int \<Rightarrow> int \<Rightarrow> int \<Rightarrow> int \<Rightarrow> int \<Rightarrow> int \<Rightarrow> int" where
  "isoTime y m d hh mm ss =
     daysFromCivil y m d * 86400000 + hh * 3600000 + mm * 60000 + ss * 1000"

definition isoDay :: "int \<Rightarrow> int \<Rightarrow> int \<Rightarrow> int" where
  "isoDay y m d = isoTime y m d 0 0 0"

definition utcRuntime :: Runtime where
  "utcRuntime =
     \<lparr> getFullYear = (\<lambda>t. fst (civilFromDays (t div 86400000))),
       getMonth = (\<lambda>t. fst (snd (civilFromDays (t div 86400000))) - 1),
       getDate = (\<lambda>t. snd (snd (civilFromDays (t div 86400000)))) \<rparr>"

text \<open>
  Sample records: the two sessions of the spec's end-to-end scenario (title A, english,
  2024-03-01 at 10:00:00Z for 600 seconds and at 10:20:00Z for 300 seconds), and a third
  session of the same video late on the next day.
\<close>

definition recA1 :: PlaybackRecord where
  "recA1 = \<lparr> sessionId = ''s1'', title = ''A'', url = ''https://v.example/watch?v=1'',
              language = ''english'', duration = 600, date = isoTime 2024 3 1 10 0 0,
              channelName = None, channelLogo = None \<rparr>"

definition recA2 :: PlaybackRecord where
  "recA2 = \<lparr> sessionId = ''s2'', title = ''A'', url = ''https://v.example/watch?v=1&t=600'',
              language = ''english'', duration = 300, date = isoTime 2024 3 1 10 20 0,
              channelName = None, channelLogo = None \<rparr>"

definition recA3 :: PlaybackRecord where
  "recA3 = \<lparr> sessionId = ''s3'', title = ''A'', url = ''https://v.example/watch?v=1'',
              language = ''english'', duration = 120, date = isoTime 2024 3 2 21 0 0,
              channelName = None, channelLogo = None \<rparr>"

text \<open>
  Three sessions of one morning whose merge keys are the same string \<open>:::x::english\<close>:
  the first has no channel name and the title \<open>:x\<close>, the other two have the channel name
  \<open>:\<close> and the title \<open>x\<close>.
\<close>

definition recB1 :: PlaybackRecord where
  "recB1 = \<lparr> sessionId = ''k1'', title = '':x'', url = ''https://v.example/watch?v=2'',
              language = ''english'', duration = 60, date = isoTime 2024 3 1 10 0 0,
              channelName = None, channelLogo = None \<rparr>"

definition recB2 :: PlaybackRecord where
  "recB2 = \<lparr> sessionId = ''k2'', title = ''x'', url = ''https://v.example/watch?v=3'',
              language = ''english'', duration = 60, date = isoTime 2024 3 1 10 5 0,
              channelName = Some '':'', channelLogo = None \<rparr>"

definition recB3 :: PlaybackRecord where
  "recB3 = \<lparr> sessionId = ''k3'', title = ''x'', url = ''https://v.example/watch?v=3'',
              language = ''english'', duration = 60, date = isoTime 2024 3 1 10 10 0,
              channelName = Some '':'', channelLogo = None \<rparr>"


section \<open>Aggregator (History.getLanguageStats, Calendar.updateDailyDurations)\<close>

text \<open>
  The totals are kept in plain objects indexed by the language string. An object is the
  map of its own properties; what a property holds is a number or something that is not a
  number (\<open>Junk\<close>: a string, or a function or object inherited from \<open>Object.prototype\<close>).
\<close>

datatype jsval = Num int | Junk

type_synonym jsobj = "string \<rightharpoonup> jsval"

definition objectPrototypeNames :: "string list" where
  "objectPrototypeNames =
     [''constructor'', ''hasOwnProperty'', ''isPrototypeOf'', ''propertyIsEnumerable'',
      ''toLocaleString'', ''toString'', ''valueOf'', ''__proto__'',
      ''__defineGetter__'', ''__defineSetter__'', ''__lookupGetter__'', ''__lookupSetter__'']"

text \<open>\<open>obj[k]\<close>: \<open>None\<close> is undefined; an inherited name reads as a function or object.\<close>

definition getProp :: "jsobj \<Rightarrow> string \<Rightarrow> jsval option" where
  "getProp ob k =
     (case ob k of
        Some v \<Rightarrow> Some v
      | None \<Rightarrow> if k \<in> set objectPrototypeNames then Some Junk else None)"



definition LANGUAGES :: "string list" where
  "LANGUAGES = [''cantonese'', ''english'', ''japanese'', ''spanish'']"







section \<open>Goal achievement (Calendar, the badge of one language on one day)\<close>

text \<open>\<open>typeof duration === "number" ? duration : 0\<close>.\<close>

definition numericDuration :: "jsval option \<Rightarrow> int" where
  "numericDuration x = (case x of Some (Num n) \<Rightarrow> n | _ \<Rightarrow> 0)"

text \<open>
  \<open>goalInputs[lang] || 0\<close>, where \<open>goalInputs\<close> holds numbers: an own goal, 0 when there
  is none, and an inherited function for a name of \<open>Object.prototype\<close>.
\<close>

definition goalFor :: "(string \<rightharpoonup> int) \<Rightarrow> string \<Rightarrow> jsval" where
  "goalFor goalInputs lang =
     (case goalInputs lang of
        Some g \<Rightarrow> Num g
      | None \<Rightarrow> if lang \<in> set objectPrototypeNames then Junk else Num 0)"

text \<open>
  The callback that renders one \<open>[lang, duration]\<close> entry of a day: \<open>None\<close> when it returns
  null, otherwise the flag \<open>achieved\<close> and the minutes shown. A goal that is not a number
  compares as NaN, so both comparisons are false.
\<close>

definition langDuration :: "(string \<rightharpoonup> int) \<Rightarrow> string \<Rightarrow> jsval option \<Rightarrow> (bool \<times> int) option" where
  "langDuration goalInputs lang dur =
     (let n = numericDuration dur in
      if n \<le> 0 then None
      else let goal = goalFor goalInputs lang;
               achieved = (case goal of Num g \<Rightarrow> g > 0 \<and> n div 60 \<ge> g | Junk \<Rightarrow> False)
           in Some (achieved, n div 60))"

definition achieved :: "(string \<rightharpoonup> int) \<Rightarrow> jsobj \<Rightarrow> string \<Rightarrow> bool" where
  "achieved goalInputs dayDuration lang =
     (case langDuration goalInputs lang (getProp dayDuration lang) of
        None \<Rightarrow> False
      | Some (a, minutes) \<Rightarrow> a)"

section \<open>Goal store and resolver (IndexedDBService, History.loadGoals, History.saveGoal)\<close>

record DailyGoal =
  date :: int
  goals :: "string \<rightharpoonup> int"
  visibility :: "(string \<rightharpoonup> bool) option"
  updatedAt :: int

text \<open>
  The object store \<open>dailyGoals\<close> (key path \<open>date\<close>) is the list of its documents.
  \<open>getAll\<close> returns them in key order; \<open>put\<close> replaces the document with the same key.
  Requests that fail are not modelled.
\<close>

definition getAll :: "DailyGoal list \<Rightarrow> DailyGoal list" where
  "getAll db = sort_key DailyGoal.date db"



text \<open>
  \<open>allGoals.sort((a, b) => time(b) - time(a))\<close> is a stable sort by descending time; the
  \<open>for\<close> loop with \<open>break\<close> returns the first document that passes the test.
\<close>

definition getDailyGoal :: "DailyGoal list \<Rightarrow> int \<Rightarrow> DailyGoal option" where
  "getDailyGoal db targetDate =
     (let allGoals = getAll db in
      if length allGoals = 0 then None
      else let sortedGoals = sort_key (\<lambda>g. - DailyGoal.date g) allGoals
           in find (\<lambda>goal. DailyGoal.date goal \<le> targetDate) sortedGoals)"

text \<open>
  Modelled from the spec: the constant \<open>DEFAULT_DAILY_GOAL\<close> of utils/constants, which is
  not among the sources; the spec describes it as the hard-coded default goal set, all
  languages with goal 0.
\<close>

definition DEFAULT_DAILY_GOAL :: "string \<rightharpoonup> int" where
  "DEFAULT_DAILY_GOAL =
     [''cantonese'' \<mapsto> 0, ''english'' \<mapsto> 0, ''japanese'' \<mapsto> 0, ''spanish'' \<mapsto> 0]"

definition normalizeVisibility :: "(string \<rightharpoonup> bool) option \<Rightarrow> (string \<rightharpoonup> bool)" where
  "normalizeVisibility vis =
     (let rd = (\<lambda>k. case vis of None \<Rightarrow> True
                     | Some v \<Rightarrow> (case v k of None \<Rightarrow> True | Some b \<Rightarrow> b))
      in [''cantonese'' \<mapsto> rd ''cantonese'', ''english'' \<mapsto> rd ''english'',
          ''japanese'' \<mapsto> rd ''japanese'', ''spanish'' \<mapsto> rd ''spanish''])"

text \<open>
  The part of the History component's state that goal resolution reads and writes,
  together with the store.
\<close>

record HistoryState =
  db :: "DailyGoal list"
  goalInputs :: "string \<rightharpoonup> int"
  languageVisibility :: "string \<rightharpoonup> bool"

text \<open>
  \<open>loadGoals\<close>: resolve the snapshot for today and put it into the input fields. Its last
  step, the list of the month's snapshots, is left out.
\<close>

definition loadGoals :: "int \<Rightarrow> int \<Rightarrow> HistoryState \<Rightarrow> HistoryState" where
  "loadGoals today now s =
     (let dailyGoal = (case getDailyGoal (db s) today of
                         Some g \<Rightarrow> g
                       | None \<Rightarrow> \<lparr> date = today, goals = DEFAULT_DAILY_GOAL,
                                   visibility = None, updatedAt = now \<rparr>);
          vis = normalizeVisibility
                  (case visibility dailyGoal of
                     Some v \<Rightarrow> Some v
                   | None \<Rightarrow> Some (languageVisibility s))
      in s\<lparr> goalInputs := goals dailyGoal, languageVisibility := vis \<rparr>)"



text \<open>
  Sample snapshots for 2024-01-01 and 2024-01-10, the dates of the spec's carry-forward
  scenario.
\<close>

definition goalJan1 :: DailyGoal where
  "goalJan1 = \<lparr> date = isoDay 2024 1 1,
                goals = [''cantonese'' \<mapsto> 0, ''english'' \<mapsto> 20, ''japanese'' \<mapsto> 45, ''spanish'' \<mapsto> 0],
                visibility = Some [''cantonese'' \<mapsto> False, ''english'' \<mapsto> True,
                                   ''japanese'' \<mapsto> True, ''spanish'' \<mapsto> True],
                updatedAt = isoTime 2024 1 1 8 0 0 \<rparr>"

definition goalJan10 :: DailyGoal where
  "goalJan10 = \<lparr> date = isoDay 2024 1 10,
                 goals = [''cantonese'' \<mapsto> 10, ''english'' \<mapsto> 60, ''japanese'' \<mapsto> 45, ''spanish'' \<mapsto> 0],
                 visibility = None,
                 updatedAt = isoTime 2024 1 10 8 0 0 \<rparr>"

section \<open>Import (History.importData, IndexedDBService.saveRecord)\<close>

datatype json =
  JNull | JBool bool | JNum int | JStr string | JArr "json list" | JObj "(string \<times> json) list"

text \<open>
  \<open>data.k\<close> on a parsed value other than null: \<open>None\<close> is undefined. In an object the last
  of several equal keys wins; the names read here are no properties of arrays, strings,
  numbers or booleans.
\<close>

definition member :: "json \<Rightarrow> string \<Rightarrow> json option" where
  "member d k = (case d of JObj kvs \<Rightarrow> map_of (rev kvs) k | _ \<Rightarrow> None)"

definition truthy :: "json option \<Rightarrow> bool" where
  "truthy x =
     (case x of
        None \<Rightarrow> False
      | Some JNull \<Rightarrow> False
      | Some (JBool b) \<Rightarrow> b
      | Some (JNum n) \<Rightarrow> n \<noteq> 0
      | Some (JStr s) \<Rightarrow> s \<noteq> []
      | Some _ \<Rightarrow> True)"

definition isArray :: "json option \<Rightarrow> bool" where
  "isArray x = (case x of Some (JArr _) \<Rightarrow> True | _ \<Rightarrow> False)"

text \<open>What IndexedDB accepts as a key, among parsed JSON values.\<close>

fun validKey :: "json \<Rightarrow> bool" where
  "validKey (JStr _) = True"
| "validKey (JNum _) = True"
| "validKey (JArr ks) = list_all validKey ks"
| "validKey _ = False"

datatype storeError = TypeError | DataError | InvalidFormat | SyntaxError

text \<open>
  The object store of playback records (key path \<open>sessionId\<close>): keys with the stored
  objects, an object being its list of properties (\<open>None\<close> for undefined).
\<close>

type_synonym storedRecord = "(string \<times> json option) list"
type_synonym recordStore = "(json \<times> storedRecord) list"

text \<open>\<open>x || null\<close>.\<close>

definition orNull :: "json option \<Rightarrow> json option" where
  "orNull x = (if truthy x then x else Some JNull)"

definition completeRecord :: "json \<Rightarrow> storedRecord" where
  "completeRecord record =
     [(''sessionId'', member record ''sessionId''),
      (''title'', member record ''title''),
      (''url'', member record ''url''),
      (''language'', member record ''language''),
      (''duration'', member record ''duration''),
      (''date'', member record ''date''),
      (''channelName'', orNull (member record ''channelName'')),
      (''channelLogo'', orNull (member record ''channelLogo''))]"

text \<open>
  \<open>saveRecord\<close>: reading a property of null throws; \<open>store.put\<close> throws when the key is
  missing or not a valid key. Either way the promise is rejected.
\<close>

definition saveRecord :: "json \<Rightarrow> recordStore \<Rightarrow> storeError + recordStore" where
  "saveRecord record st =
     (if record = JNull then Inl TypeError
      else case member record ''sessionId'' of
             None \<Rightarrow> Inl DataError
           | Some k \<Rightarrow>
               if validKey k
               then Inr ((k, completeRecord record) # filter (\<lambda>e. fst e \<noteq> k) st)
               else Inl DataError)"

text \<open>
  The state of an import: the arguments of the \<open>saveRecord\<close> calls issued so far, the
  store, and the error caught, if any.
\<close>

record ImportState =
  calls :: "json list"
  store :: recordStore
  failure :: "storeError option"

text \<open>The \<open>for ... of\<close> loop; a rejected \<open>saveRecord\<close> leaves the loop for the catch block.\<close>

fun saveEach :: "json list \<Rightarrow> ImportState \<Rightarrow> ImportState" where
  "saveEach [] s = s"
| "saveEach (record # rest) s =
     (case saveRecord record (store s) of
        Inl e \<Rightarrow> s\<lparr> calls := calls s @ [record], failure := Some e \<rparr>
      | Inr st \<Rightarrow> saveEach rest (s\<lparr> calls := calls s @ [record], store := st \<rparr>))"

text \<open>
  \<open>importData\<close> on the result of \<open>JSON.parse\<close> (\<open>None\<close> when it throws). Every throw ends in
  the catch block, which reports the failure.
\<close>

definition importData :: "json option \<Rightarrow> recordStore \<Rightarrow> ImportState" where
  "importData parsed st =
     (let s0 = \<lparr> calls = [], store = st, failure = None \<rparr> in
      case parsed of
        None \<Rightarrow> s0\<lparr> failure := Some SyntaxError \<rparr>
      | Some data \<Rightarrow>
          if data = JNull then s0\<lparr> failure := Some TypeError \<rparr>
          else if \<not> truthy (member data ''version'') \<or> \<not> truthy (member data ''records'')
                  \<or> \<not> isArray (member data ''records'')
          then s0\<lparr> failure := Some InvalidFormat \<rparr>
          else (case member data ''records'' of
                  Some (JArr records) \<Rightarrow> saveEach records s0
                | _ \<Rightarrow> s0\<lparr> failure := Some InvalidFormat \<rparr>))"

text \<open>
  Sample documents: an export with two records, and a document without the \<open>version\<close>
  field.
\<close>

definition jsonRecord :: "string \<Rightarrow> int \<Rightarrow> json" where
  "jsonRecord sid secs =
     JObj [(''sessionId'', JStr sid), (''title'', JStr ''A''), (''url'', JStr ''manual-entry''),
           (''language'', JStr ''english''), (''duration'', JNum secs),
           (''date'', JStr ''2024-03-01T10:00:00.000Z'')]"

definition goodDocument :: json where
  "goodDocument =
     JObj [(''version'', JStr ''1.0''), (''exportDate'', JStr ''2024-03-02T00:00:00.000Z''),
           (''records'', JArr [jsonRecord ''s1'' 600, jsonRecord ''s2'' 300]),
           (''goals'', JArr [])]"

definition noVersionDocument :: json where
  "noVersionDocument = JObj [(''records'', JArr [jsonRecord ''s1'' 600])]"

section \<open>Predicates used to state the properties of the merge engine\<close>

text \<open>
  \<open>segmentOf r\<close> is the interval a record occupies. \<open>summarises d g\<close> says that the
  display record \<open>d\<close> stands for the non-empty run \<open>g\<close> of input records: its ids, total,
  segments, start and span are those of the run.
\<close>

definition segmentOf :: "PlaybackRecord \<Rightarrow> TimelineSegment" where
  "segmentOf r = \<lparr> segStart = PlaybackRecord.date r,
                   segEnd = PlaybackRecord.date r + duration r * 1000 \<rparr>"

definition summarises :: "DisplayRecord \<Rightarrow> PlaybackRecord list \<Rightarrow> bool" where
  "summarises d g =
     (g \<noteq> [] \<and>
      mergedSessionIds d = map sessionId g \<and>
      totalDuration d = sum_list (map duration g) \<and>
      segments d = map segmentOf g \<and>
      startDate d = Min (PlaybackRecord.date ` set g) \<and>
      spanStart d = Min (PlaybackRecord.date ` set g) \<and>
      spanEnd d = Max ((\<lambda>r. PlaybackRecord.date r + duration r * 1000) ` set g))"

section \<open>Properties of the merge engine\<close>

text \<open>
  C9. With merging disabled every record becomes a display record of its own, in input
  order: it carries the record's fields, is not merged, lists exactly the record's session
  id, has the record's duration as total and the single segment from the record's start to
  start plus duration (in milliseconds).
\<close>

theorem buildDisplayRecords_unmerged:
  "list_all2
     (\<lambda>d r. PlaybackRecord.truncate d = r \<and>
            \<not> isMerged d \<and>
            mergedSessionIds d = [sessionId r] \<and>
            totalDuration d = duration r \<and>
            segments d = [\<lparr> segStart = PlaybackRecord.date r,
                            segEnd = PlaybackRecord.date r + duration r * 1000 \<rparr>])
     (buildDisplayRecords rt records False) records"
  by (simp add: buildDisplayRecords_def singleton_def Let_def PlaybackRecord.truncate_def
      list_all2_map1 list_all2_same)

theorem buildDisplayRecords_unmerged_witness:
  "(let out = buildDisplayRecords utcRuntime [recA1, recA2] False
    in length out = 2 \<and> mergedSessionIds (out ! 1) = [''s2''] \<and> \<not> isMerged (out ! 1) \<and>
       totalDuration (out ! 1) = 300 \<and>
       segments (out ! 1) = [\<lparr> segStart = 1709288400000, segEnd = 1709288700000 \<rparr>])"
  using buildDisplayRecords_unmerged [of utcRuntime "[recA1, recA2]"]
  by (auto simp: list_all2_Cons2 Let_def recA1_def recA2_def isoTime_def daysFromCivil_def)

lemma mergeLoop_snoc: "mergeLoop rt (xs @ [r]) = forEachBody rt (mergeLoop rt xs) r"
  by (simp add: mergeLoop_def)

lemma forEachBody_current:
  "\<exists>cur. current (forEachBody rt s r) = Some cur \<and>
         lastMergedDate (forEachBody rt s r) = Some (PlaybackRecord.date r) \<and>
         mergedSessionIds cur \<noteq> [] \<and> last (mergedSessionIds cur) = sessionId r"
  by (simp add: forEachBody_def mergeInto_def singleton_def Let_def split: option.splits)

lemma mergeLoop_last:
  assumes "ys \<noteq> []"
  shows "\<exists>cur. current (mergeLoop rt ys) = Some cur \<and>
           lastMergedDate (mergeLoop rt ys) = Some (PlaybackRecord.date (last ys)) \<and>
           mergedSessionIds cur \<noteq> [] \<and> last (mergedSessionIds cur) = sessionId (last ys)"
proof -
  from assms obtain zs r where ys: "ys = zs @ [r]"
    by (cases ys rule: rev_cases) auto
  show ?thesis
    using forEachBody_current [of rt "mergeLoop rt zs" r] by (simp add: ys mergeLoop_snoc)
qed

lemma gapHours_gt2: "gapHours a b > 2 \<longleftrightarrow> 2 * 60 * 60 * 1000 < \<bar>b - a\<bar>"
proof -
  have "gapHours a b > 2 \<longleftrightarrow> real_of_int \<bar>a - b\<bar> > 7200000"
    by (simp add: gapHours_def field_simps)
  also have "\<dots> \<longleftrightarrow> \<bar>a - b\<bar> > 7200000"
    by linarith
  finally show ?thesis by (simp add: abs_minus_commute)
qed

lemma getVideoKey_isMerged [simp]: "getVideoKey (d\<lparr>isMerged := b\<rparr>) = getVideoKey d"
  by (simp add: getVideoKey_def)

lemma lowerChar_colon: "lowerChar c = CHR '':'' \<longleftrightarrow> c = CHR '':''"
  by (auto simp: lowerChar_def split: option.splits)

lemma channelKey_falsy: "falsy c \<Longrightarrow> toLowerCase (trim (orEmpty c)) = []"
  by (auto simp: falsy_def orEmpty_def trim_def toLowerCase_def split: option.splits)

lemma toLowerCase_take1:
  "take 1 (toLowerCase s) = '':'' \<longleftrightarrow> take 1 s = '':''"
  by (cases s) (auto simp: toLowerCase_def lowerChar_colon)

lemma getVideoKey_mergeInto:
  assumes k: "getVideoKey cur = getVideoKey r"
      and nc: "take 1 (trim (orEmpty (channelName r))) \<noteq> '':''"
  shows "getVideoKey (mergeInto cur r) = getVideoKey r"
proof (cases "falsy (channelName cur)")
  case False
  then have "getVideoKey (mergeInto cur r) = getVideoKey cur"
    by (simp add: getVideoKey_def mergeInto_def Let_def)
  with k show ?thesis by simp
next
  case True
  let ?c = "toLowerCase (trim (orEmpty (channelName r)))"
  have c0: "toLowerCase (trim (orEmpty (channelName cur))) = []"
    using True by (rule channelKey_falsy)
  have "take 1 ?c \<noteq> '':''"
    using nc toLowerCase_take1 [of "trim (orEmpty (channelName r))"] by simp
  moreover have "'':'' @ ('':'' @ toLowerCase (trim (title cur)) @ ''::'' @ language cur)
                 = ?c @ ''::'' @ toLowerCase (trim (title r)) @ ''::'' @ language r"
    using k c0 by (simp add: getVideoKey_def Let_def)
  ultimately have c: "?c = []"
    by (cases ?c) auto
  have "getVideoKey (mergeInto cur r)
        = ?c @ ''::'' @ toLowerCase (trim (title cur)) @ ''::'' @ language cur"
    using True by (simp add: getVideoKey_def mergeInto_def Let_def)
  also have "\<dots> = getVideoKey cur"
    using c c0 by (simp add: getVideoKey_def Let_def)
  finally show ?thesis using k by simp
qed

lemma getVideoKey_singleton [simp]: "getVideoKey (singleton r) = getVideoKey r"
  by (simp add: getVideoKey_def singleton_def Let_def)

lemma mergeLoop_key:
  assumes "\<forall>q \<in> set ys. take 1 (trim (orEmpty (channelName q))) \<noteq> '':''" and "ys \<noteq> []"
  shows "\<exists>cur. current (mergeLoop rt ys) = Some cur \<and> getVideoKey cur = getVideoKey (last ys)"
  using assms
proof (induction ys rule: rev_induct)
  case Nil
  then show ?case by simp
next
  case (snoc r zs)
  show ?case
  proof (cases "current (mergeLoop rt zs)")
    case None
    then show ?thesis by (simp add: mergeLoop_snoc forEachBody_def)
  next
    case (Some cur)
    show ?thesis
    proof (cases "shouldMerge rt cur (lastMergedDate (mergeLoop rt zs)) r")
      case False
      with Some show ?thesis by (simp add: mergeLoop_snoc forEachBody_def)
    next
      case True
      then have "getVideoKey cur = getVideoKey r"
        by (simp add: shouldMerge_def Let_def)
      moreover have "take 1 (trim (orEmpty (channelName r))) \<noteq> '':''"
        using snoc.prems by simp
      ultimately have "getVideoKey (mergeInto cur r) = getVideoKey r"
        by (rule getVideoKey_mergeInto)
      with Some True show ?thesis by (simp add: mergeLoop_snoc forEachBody_def)
    qed
  qed
qed

lemma build_merged:
  "buildDisplayRecords rt ys True = pushCurrent (current (mergeLoop rt ys)) (merged (mergeLoop rt ys))"
  by (simp add: buildDisplayRecords_def Let_def)

lemma mergeInto_ids [simp]:
  "mergedSessionIds (mergeInto cur r) = mergedSessionIds cur @ [sessionId r]"
  by (simp add: mergeInto_def Let_def)

lemma mergeInto_isMerged:
  "mergeInto (cur\<lparr>isMerged := b\<rparr>) r\<lparr>isMerged := c\<rparr> = mergeInto cur r\<lparr>isMerged := c\<rparr>"
  by (simp add: mergeInto_def Let_def)

text \<open>
  C1 (as amended). Take any input that continues, after a prefix \<open>xs\<close>, with the records
  \<open>p\<close> and then \<open>r\<close>, merging enabled. When \<open>r\<close> arrives the accumulator \<open>acc\<close> is the last
  display record of the output for \<open>xs @ [p]\<close>, and \<open>p\<close> is the record merged into it last.
  Then \<open>r\<close> is folded into the accumulator (the output keeps its length and its last
  display record absorbs \<open>r\<close>) if and only if the merge key of \<open>r\<close> equals the key of the
  accumulator and it is not the case that \<open>r\<close> and \<open>p\<close> fall on different local calendar
  days with more than two hours between them; otherwise the accumulator is emitted as it
  is and \<open>r\<close> starts a new display record. Provided no record so far has a trimmed
  channel name that begins with a colon, the accumulator's key is the key of \<open>p\<close>, so
  that two consecutive records with the same key merge always when they are on the same
  day, and exactly when the gap is at most two hours when they are on different days.
\<close>

theorem merge_decision:
  "let prev = buildDisplayRecords rt (xs @ [p]) True;
       out = buildDisplayRecords rt (xs @ [p, r]) True;
       acc = last prev;
       cross = crossesDay rt (PlaybackRecord.date p) (PlaybackRecord.date r);
       gap = \<bar>PlaybackRecord.date r - PlaybackRecord.date p\<bar>;
       folded = (out = butlast prev @ [mergeInto acc r\<lparr>isMerged := True\<rparr>]);
       plain = (\<forall>q \<in> set (xs @ [p]). take 1 (trim (orEmpty (channelName q))) \<noteq> '':'')
   in prev \<noteq> [] \<and> last (mergedSessionIds acc) = sessionId p \<and>
      (folded \<longleftrightarrow> getVideoKey r = getVideoKey acc \<and> \<not> (cross \<and> 2 * 60 * 60 * 1000 < gap)) \<and>
      (\<not> folded \<longrightarrow> out = prev @ [singleton r]) \<and>
      (plain \<longrightarrow> getVideoKey acc = getVideoKey p) \<and>
      (plain \<and> getVideoKey r = getVideoKey p \<and> \<not> cross \<longrightarrow> folded) \<and>
      (plain \<and> getVideoKey r = getVideoKey p \<and> cross \<longrightarrow>
         (folded \<longleftrightarrow> gap \<le> 2 * 60 * 60 * 1000))"
proof -
  let ?s = "mergeLoop rt (xs @ [p])"
  let ?out = "buildDisplayRecords rt (xs @ [p, r]) True"
  obtain cur where cur: "current ?s = Some cur"
    and lmd: "lastMergedDate ?s = Some (PlaybackRecord.date p)"
    and ne: "mergedSessionIds cur \<noteq> []"
    and lst: "last (mergedSessionIds cur) = sessionId p"
    using mergeLoop_last [of "xs @ [p]" rt] by auto
  define acc where "acc = cur\<lparr>isMerged := 1 < length (mergedSessionIds cur)\<rparr>"
  define m where "m = merged ?s"
  have prev: "buildDisplayRecords rt (xs @ [p]) True = m @ [acc]"
    by (simp add: build_merged cur pushCurrent_def acc_def m_def)
  have acc: "getVideoKey acc = getVideoKey cur" "last (mergedSessionIds acc) = sessionId p"
    using lst by (simp_all add: acc_def)
  have step: "mergeLoop rt (xs @ [p, r]) = forEachBody rt ?s r"
    using mergeLoop_snoc [of rt "xs @ [p]" r] by simp
  have sm: "shouldMerge rt cur (Some (PlaybackRecord.date p)) r \<longleftrightarrow>
            getVideoKey r = getVideoKey cur \<and>
            \<not> (crossesDay rt (PlaybackRecord.date p) (PlaybackRecord.date r) \<and>
               2 * 60 * 60 * 1000 < \<bar>PlaybackRecord.date r - PlaybackRecord.date p\<bar>)"
    by (auto simp: shouldMerge_def Let_def gapHours_gt2)
  have len: "1 < length (mergedSessionIds cur @ [sessionId r])"
    using ne by (cases "mergedSessionIds cur") auto
  have out1: "?out = m @ [mergeInto acc r\<lparr>isMerged := True\<rparr>]"
    if "shouldMerge rt cur (Some (PlaybackRecord.date p)) r"
    using that len
    by (simp add: build_merged step forEachBody_def cur lmd pushCurrent_def acc_def m_def
        mergeInto_isMerged)
  have out2: "?out = (m @ [acc]) @ [singleton r]"
    if "\<not> shouldMerge rt cur (Some (PlaybackRecord.date p)) r"
    using that
    by (simp add: build_merged step forEachBody_def cur lmd pushCurrent_def singleton_def
        Let_def acc_def m_def)
  have key: "getVideoKey cur = getVideoKey p"
    if "\<forall>q \<in> set (xs @ [p]). take 1 (trim (orEmpty (channelName q))) \<noteq> '':''"
    using mergeLoop_key [OF that, of rt] cur by simp
  have folded: "?out = butlast (m @ [acc]) @ [mergeInto (last (m @ [acc])) r\<lparr>isMerged := True\<rparr>]
                \<longleftrightarrow> shouldMerge rt cur (Some (PlaybackRecord.date p)) r"
  proof (cases "shouldMerge rt cur (Some (PlaybackRecord.date p)) r")
    case True
    then show ?thesis using out1 by simp
  next
    case False
    then have "length ?out = length m + 2"
      using out2 by simp
    then have "?out \<noteq> butlast (m @ [acc]) @ [mergeInto (last (m @ [acc])) r\<lparr>isMerged := True\<rparr>]"
      by auto
    with False show ?thesis by simp
  qed
  have l: "last (m @ [acc]) = acc" by simp
  show ?thesis
    unfolding Let_def prev folded
    unfolding l acc
    using out2 sm key by auto
qed

theorem merge_decision_witness:
  "buildDisplayRecords utcRuntime [recA1, recA2, recA3] True
     = buildDisplayRecords utcRuntime [recA1, recA2] True @ [singleton recA3] \<and>
   getVideoKey (last (buildDisplayRecords utcRuntime [recA1, recA2] True)) = getVideoKey recA2 \<and>
   buildDisplayRecords utcRuntime [recA1, recA2] True
     = butlast (buildDisplayRecords utcRuntime [recA1] True)
       @ [mergeInto (last (buildDisplayRecords utcRuntime [recA1] True)) recA2\<lparr>isMerged := True\<rparr>]"
proof -
  have plain: "\<forall>q \<in> set ([recA1] @ [recA2]). take 1 (trim (orEmpty (channelName q))) \<noteq> '':''"
    "\<forall>q \<in> set ([] @ [recA1]). take 1 (trim (orEmpty (channelName q))) \<noteq> '':''"
    by (simp_all add: recA1_def recA2_def orEmpty_def trim_def)
  have cross: "crossesDay utcRuntime (PlaybackRecord.date recA2) (PlaybackRecord.date recA3)"
    "\<not> crossesDay utcRuntime (PlaybackRecord.date recA1) (PlaybackRecord.date recA2)"
    by code_simp+
  have gap: "2 * 60 * 60 * 1000 < \<bar>PlaybackRecord.date recA3 - PlaybackRecord.date recA2\<bar>"
    by code_simp
  have k: "getVideoKey recA3 = getVideoKey recA2" "getVideoKey recA2 = getVideoKey recA1"
    by (simp_all add: getVideoKey_def recA1_def recA2_def recA3_def)
  have a: "buildDisplayRecords utcRuntime [recA1, recA2, recA3] True
             = buildDisplayRecords utcRuntime [recA1, recA2] True @ [singleton recA3] \<and>
           getVideoKey (last (buildDisplayRecords utcRuntime [recA1, recA2] True))
             = getVideoKey recA2"
    using merge_decision [where rt = utcRuntime and xs = "[recA1]" and p = recA2 and r = recA3]
      plain(1) cross(1) gap
    by (simp add: Let_def)
  have b: "buildDisplayRecords utcRuntime [recA1, recA2] True
     = butlast (buildDisplayRecords utcRuntime [recA1] True)
       @ [mergeInto (last (buildDisplayRecords utcRuntime [recA1] True)) recA2\<lparr>isMerged := True\<rparr>]"
    using merge_decision [where rt = utcRuntime and xs = "[]" and p = recA1 and r = recA2]
      plain(2) cross(2) k(2)
    by (simp add: Let_def)
  from a b show ?thesis by simp
qed

text \<open>
  C1, the claim as first stated. Without the proviso on channel names the statement about
  consecutive records fails:
  \<open>recB2\<close> and \<open>recB3\<close> are consecutive, have the same merge key and lie on the same day,
  yet they end up in different display records. Merging \<open>recB2\<close> into the accumulator
  started by \<open>recB1\<close> copies its channel name into the accumulator, whose key then is
  another string.
\<close>

theorem merge_counterexample:
  "getVideoKey recB2 = getVideoKey recB3 \<and>
   \<not> crossesDay utcRuntime (PlaybackRecord.date recB2) (PlaybackRecord.date recB3) \<and>
   map mergedSessionIds (buildDisplayRecords utcRuntime [recB1, recB2, recB3] True)
     = [[''k1'', ''k2''], [''k3'']]"
  by code_simp

lemma summarises_singleton: "summarises (singleton r) [r]"
  by (simp add: summarises_def singleton_def segmentOf_def Let_def)

lemma summarises_isMerged [simp]: "summarises (d\<lparr>isMerged := b\<rparr>) g = summarises d g"
  by (simp add: summarises_def)

lemma summarises_mergeInto:
  assumes "summarises cur g"
  shows "summarises (mergeInto cur r) (g @ [r])"
proof -
  define lo where "lo = Min (PlaybackRecord.date ` set g)"
  define hi where "hi = Max ((\<lambda>r. PlaybackRecord.date r + duration r * 1000) ` set g)"
  from assms have ne: "g \<noteq> []"
    and flds: "mergedSessionIds cur = map sessionId g"
      "totalDuration cur = sum_list (map duration g)"
      "segments cur = map segmentOf g"
      "startDate cur = lo" "spanStart cur = lo" "spanEnd cur = hi"
    by (simp_all add: summarises_def lo_def hi_def)
  have mn: "Min (PlaybackRecord.date ` set (g @ [r])) = min lo (PlaybackRecord.date r)"
    using ne by (simp add: lo_def min.commute)
  have mx: "Max ((\<lambda>r. PlaybackRecord.date r + duration r * 1000) ` set (g @ [r]))
            = max hi (PlaybackRecord.date r + duration r * 1000)"
    using ne by (simp add: hi_def max.commute)
  have sd: "(if PlaybackRecord.date r < lo then PlaybackRecord.date r else lo)
            = min lo (PlaybackRecord.date r)"
    by (simp add: min_def)
  show ?thesis
    unfolding summarises_def mn mx
    by (simp add: mergeInto_def Let_def segmentOf_def flds sd)
qed

lemma mergeLoop_groups:
  "case current (mergeLoop rt ys) of
     None \<Rightarrow> ys = [] \<and> merged (mergeLoop rt ys) = []
   | Some cur \<Rightarrow>
       (\<exists>gs g. ys = concat gs @ g \<and> list_all2 summarises (merged (mergeLoop rt ys)) gs \<and>
               summarises cur g)"
proof (induction ys rule: rev_induct)
  case Nil
  show ?case by (simp add: mergeLoop_def initialState_def)
next
  case (snoc r zs)
  let ?s = "mergeLoop rt zs"
  let ?s' = "mergeLoop rt (zs @ [r])"
  show ?case
  proof (cases "current ?s")
    case None
    with snoc have zs: "zs = []" and m: "merged ?s = []" by auto
    have st: "current ?s' = Some (singleton r)" "merged ?s' = []"
      using None m by (simp_all add: mergeLoop_snoc forEachBody_def)
    have "\<exists>gs g. zs @ [r] = concat gs @ g \<and> list_all2 summarises [] gs \<and>
                 summarises (singleton r) g"
      using summarises_singleton [of r]
      by (intro exI [of _ "[]"] exI [of _ "[r]"]) (simp add: zs)
    then show ?thesis by (simp add: st)
  next
    case (Some cur)
    with snoc obtain gs g where zs: "zs = concat gs @ g"
      and all: "list_all2 summarises (merged ?s) gs" and cur: "summarises cur g"
      by auto
    show ?thesis
    proof (cases "shouldMerge rt cur (lastMergedDate ?s) r")
      case True
      have st: "current ?s' = Some (mergeInto cur r)" "merged ?s' = merged ?s"
        using Some True by (simp_all add: mergeLoop_snoc forEachBody_def)
      have "\<exists>gs' g'. zs @ [r] = concat gs' @ g' \<and> list_all2 summarises (merged ?s) gs' \<and>
                     summarises (mergeInto cur r) g'"
        using all summarises_mergeInto [OF cur, of r]
        by (intro exI [of _ gs] exI [of _ "g @ [r]"]) (simp add: zs)
      then show ?thesis by (simp add: st)
    next
      case False
      have st: "current ?s' = Some (singleton r)"
        "merged ?s' = pushCurrent (Some cur) (merged ?s)"
        using Some False by (simp_all add: mergeLoop_snoc forEachBody_def)
      have "list_all2 summarises (pushCurrent (Some cur) (merged ?s)) (gs @ [g])"
        using all cur by (simp add: pushCurrent_def list_all2_appendI)
      then have "\<exists>gs' g'. zs @ [r] = concat gs' @ g' \<and>
                     list_all2 summarises (pushCurrent (Some cur) (merged ?s)) gs' \<and>
                     summarises (singleton r) g'"
        using summarises_singleton [of r]
        by (intro exI [of _ "gs @ [g]"] exI [of _ "[r]"]) (simp add: zs)
      then show ?thesis by (simp add: st)
    qed
  qed
qed

lemma buildDisplayRecords_groups:
  "\<exists>gs. concat gs = records \<and>
        list_all2 summarises (buildDisplayRecords rt records mergeConsecutive) gs"
proof (cases mergeConsecutive)
  case False
  have "concat (map (\<lambda>r. [r]) records) = records"
    by (induction records) auto
  moreover have "list_all2 summarises (map singleton records) (map (\<lambda>r. [r]) records)"
    by (simp add: list_all2_map1 list_all2_map2 list_all2_same summarises_singleton)
  ultimately show ?thesis
    using False by (auto simp: buildDisplayRecords_def intro!: exI [of _ "map (\<lambda>r. [r]) records"])
next
  case True
  let ?s = "mergeLoop rt records"
  show ?thesis
  proof (cases "current ?s")
    case None
    with mergeLoop_groups [where rt = rt and ys = records]
    have r: "records = []" and m: "merged ?s = []" by auto
    have "buildDisplayRecords rt records True = []"
      using None m by (simp add: build_merged pushCurrent_def)
    then show ?thesis
      using True r by (intro exI [of _ "[]"]) simp
  next
    case (Some cur)
    with mergeLoop_groups [where rt = rt and ys = records]
    obtain gs g where "records = concat gs @ g"
      and "list_all2 summarises (merged ?s) gs" and "summarises cur g"
      by auto
    then have "concat (gs @ [g]) = records"
      and "list_all2 summarises (pushCurrent (Some cur) (merged ?s)) (gs @ [g])"
      by (simp_all add: pushCurrent_def list_all2_appendI)
    moreover have "buildDisplayRecords rt records mergeConsecutive
                   = pushCurrent (Some cur) (merged ?s)"
      using Some True by (simp add: build_merged)
    ultimately show ?thesis
      by (intro exI [of _ "gs @ [g]"]) simp
  qed
qed

lemma merged_isMerged:
  "\<forall>d \<in> set (merged (mergeLoop rt ys)). isMerged d \<longleftrightarrow> 1 < length (mergedSessionIds d)"
proof (induction ys rule: rev_induct)
  case Nil
  show ?case by (simp add: mergeLoop_def initialState_def)
next
  case (snoc r zs)
  then show ?case
    by (auto simp: mergeLoop_snoc forEachBody_def pushCurrent_def split: option.splits)
qed

lemma build_isMerged:
  "\<forall>d \<in> set (buildDisplayRecords rt records mergeConsecutive).
     isMerged d \<longleftrightarrow> 1 < length (mergedSessionIds d)"
proof (cases mergeConsecutive)
  case False
  then show ?thesis by (auto simp: buildDisplayRecords_def singleton_def Let_def)
next
  case True
  then show ?thesis
    using merged_isMerged [of rt records]
    by (auto simp: build_merged pushCurrent_def split: option.splits)
qed

lemma list_all2_ids:
  "list_all2 summarises ds gs \<Longrightarrow> map mergedSessionIds ds = map (map sessionId) gs"
  by (induction ds gs rule: list_all2_induct) (auto simp: summarises_def)

text \<open>
  C2. For every input and both merge settings the input splits into consecutive non-empty
  runs, one per emitted display record and in the same order, such that each display
  record lists the session ids of its run, has the sum of the run's durations as total,
  has exactly one segment per record of the run (as many segments as session ids), starts
  its span at the earliest start of the run and ends it at the latest end (start plus
  duration, in milliseconds).
\<close>

theorem display_record_totals:
  "\<exists>gs. concat gs = records \<and>
     list_all2
       (\<lambda>d g. g \<noteq> [] \<and>
              mergedSessionIds d = map sessionId g \<and>
              totalDuration d = sum_list (map duration g) \<and>
              length (segments d) = length (mergedSessionIds d) \<and>
              segments d = map (\<lambda>r. \<lparr> segStart = PlaybackRecord.date r,
                                       segEnd = PlaybackRecord.date r + duration r * 1000 \<rparr>) g \<and>
              spanStart d = Min (PlaybackRecord.date ` set g) \<and>
              spanEnd d = Max ((\<lambda>r. PlaybackRecord.date r + duration r * 1000) ` set g))
       (buildDisplayRecords rt records mergeConsecutive) gs"
proof -
  obtain gs where c: "concat gs = records"
    and a: "list_all2 summarises (buildDisplayRecords rt records mergeConsecutive) gs"
    using buildDisplayRecords_groups by blast
  from a have "list_all2
       (\<lambda>d g. g \<noteq> [] \<and>
              mergedSessionIds d = map sessionId g \<and>
              totalDuration d = sum_list (map duration g) \<and>
              length (segments d) = length (mergedSessionIds d) \<and>
              segments d = map (\<lambda>r. \<lparr> segStart = PlaybackRecord.date r,
                                       segEnd = PlaybackRecord.date r + duration r * 1000 \<rparr>) g \<and>
              spanStart d = Min (PlaybackRecord.date ` set g) \<and>
              spanEnd d = Max ((\<lambda>r. PlaybackRecord.date r + duration r * 1000) ` set g))
       (buildDisplayRecords rt records mergeConsecutive) gs"
    by (rule list_all2_mono) (simp add: summarises_def segmentOf_def [abs_def])
  with c show ?thesis by blast
qed

theorem display_record_totals_witness:
  "(let out = buildDisplayRecords utcRuntime [recA1, recA2] True
    in length out = 1 \<and> totalDuration (hd out) = 900 \<and> length (segments (hd out)) = 2 \<and>
       spanStart (hd out) = isoTime 2024 3 1 10 0 0 \<and>
       spanEnd (hd out) = isoTime 2024 3 1 10 25 0)"
proof -
  let ?out = "buildDisplayRecords utcRuntime [recA1, recA2] True"
  have len: "length ?out = 1" by code_simp
  then obtain d where out: "?out = [d]"
    by (cases ?out) auto
  obtain gs where c: "concat gs = [recA1, recA2]"
    and a: "list_all2
       (\<lambda>d g. g \<noteq> [] \<and>
              mergedSessionIds d = map sessionId g \<and>
              totalDuration d = sum_list (map duration g) \<and>
              length (segments d) = length (mergedSessionIds d) \<and>
              segments d = map (\<lambda>r. \<lparr> segStart = PlaybackRecord.date r,
                                       segEnd = PlaybackRecord.date r + duration r * 1000 \<rparr>) g \<and>
              spanStart d = Min (PlaybackRecord.date ` set g) \<and>
              spanEnd d = Max ((\<lambda>r. PlaybackRecord.date r + duration r * 1000) ` set g))
       ?out gs"
    using display_record_totals [where records = "[recA1, recA2]" and rt = utcRuntime
        and mergeConsecutive = True]
    by blast
  from a out obtain g where gs: "gs = [g]"
    and t: "totalDuration d = sum_list (map duration g)"
    and l: "length (segments d) = length g"
    and lo: "spanStart d = Min (PlaybackRecord.date ` set g)"
    and hi: "spanEnd d = Max ((\<lambda>r. PlaybackRecord.date r + duration r * 1000) ` set g)"
    by (auto simp: list_all2_Cons1)
  from c gs have g: "g = [recA1, recA2]" by simp
  show ?thesis
    unfolding Let_def out
    using t l lo hi
    by (simp add: g recA1_def recA2_def isoTime_def daysFromCivil_def)
qed

text \<open>
  C10. For every input and both merge settings the session id lists of the emitted display
  records, concatenated in emission order, are exactly the session ids of the input in
  input order; and a display record is flagged as merged exactly when it lists more than
  one session id.
\<close>

theorem display_records_partition:
  "concat (map mergedSessionIds (buildDisplayRecords rt records mergeConsecutive))
     = map sessionId records \<and>
   (\<forall>d \<in> set (buildDisplayRecords rt records mergeConsecutive).
      isMerged d \<longleftrightarrow> 1 < length (mergedSessionIds d))"
proof -
  obtain gs where c: "concat gs = records"
    and a: "list_all2 summarises (buildDisplayRecords rt records mergeConsecutive) gs"
    using buildDisplayRecords_groups by blast
  have "concat (map mergedSessionIds (buildDisplayRecords rt records mergeConsecutive))
        = concat (map (map sessionId) gs)"
    using list_all2_ids [OF a] by simp
  also have "\<dots> = map sessionId (concat gs)"
    by (simp add: map_concat)
  finally show ?thesis
    using c build_isMerged by simp
qed

theorem display_records_partition_witness:
  "concat (map mergedSessionIds (buildDisplayRecords utcRuntime [recA1, recA2, recA3] True))
     = [''s1'', ''s2'', ''s3''] \<and>
   map isMerged (buildDisplayRecords utcRuntime [recA1, recA2, recA3] True) = [True, False] \<and>
   map (\<lambda>d. length (mergedSessionIds d)) (buildDisplayRecords utcRuntime [recA1, recA2, recA3] True)
     = [2, 1]"
proof -
  let ?out = "buildDisplayRecords utcRuntime [recA1, recA2, recA3] True"
  have n: "map (\<lambda>d. length (mergedSessionIds d)) ?out = [2, 1]" by code_simp
  then obtain d1 d2 where out: "?out = [d1, d2]"
    and l: "length (mergedSessionIds d1) = 2" "length (mergedSessionIds d2) = 1"
    by auto
  from display_records_partition [where rt = utcRuntime and records = "[recA1, recA2, recA3]"
      and mergeConsecutive = True]
  have c: "concat (map mergedSessionIds ?out) = map sessionId [recA1, recA2, recA3]"
    and m: "\<forall>d \<in> set ?out. isMerged d \<longleftrightarrow> 1 < length (mergedSessionIds d)"
    by simp_all
  from m out l have "map isMerged ?out = [True, False]" by simp
  with c n show ?thesis by (simp add: recA1_def recA2_def recA3_def)
qed

section \<open>Properties of the merge key\<close>









section \<open>Properties of goal achievement\<close>

text \<open>
  C4. The badge of a language on a day is drawn as achieved if and only if the language has
  a goal that is strictly positive and the whole minutes of the day's total,
  \<open>floor(seconds / 60)\<close>, reach the goal. So 3600 seconds meet a goal of 60 minutes, 3599
  seconds do not, and with the goal 0, or no goal, no total is achieved.
\<close>

theorem achieved_iff:
  "(achieved goal day lang \<longleftrightarrow>
      (\<exists>g n. goal lang = Some g \<and> day lang = Some (Num n) \<and> 0 < g \<and> g \<le> n div 60)) \<and>
   achieved (goal(lang \<mapsto> 60)) (day(lang \<mapsto> Num 3600)) lang \<and>
   \<not> achieved (goal(lang \<mapsto> 60)) (day(lang \<mapsto> Num 3599)) lang \<and>
   \<not> achieved (goal(lang \<mapsto> 0)) day lang \<and>
   \<not> achieved (goal(lang := None)) day lang"
proof -
  have main: "\<And>gi dd. achieved gi dd lang \<longleftrightarrow>
      (\<exists>g n. gi lang = Some g \<and> dd lang = Some (Num n) \<and> 0 < g \<and> g \<le> n div 60)"
    by (auto simp: achieved_def langDuration_def numericDuration_def goalFor_def getProp_def
        Let_def split: option.splits jsval.splits if_splits)
  show ?thesis
    unfolding main by simp
qed

theorem achieved_iff_witness:
  "achieved [''english'' \<mapsto> 60] [''english'' \<mapsto> Num 3600] ''english'' \<and>
   \<not> achieved [''english'' \<mapsto> 60] [''english'' \<mapsto> Num 3599] ''english'' \<and>
   \<not> achieved [''english'' \<mapsto> 0] [''english'' \<mapsto> Num 86400] ''english'' \<and>
   \<not> achieved Map.empty [''english'' \<mapsto> Num 86400] ''english''"
  using achieved_iff [of "Map.empty" "Map.empty" "''english''"]
    achieved_iff [of "Map.empty" "[''english'' \<mapsto> Num 86400]" "''english''"]
  by simp

section \<open>Properties of goal resolution\<close>

lemma set_getAll [simp]: "set (getAll docs) = set docs"
  by (simp add: getAll_def)

lemma find_sorted_desc:
  assumes "sorted (map (\<lambda>g. - DailyGoal.date g) xs)"
    and "find (\<lambda>g. DailyGoal.date g \<le> t) xs = Some g"
  shows "g \<in> set xs \<and> DailyGoal.date g \<le> t \<and>
         (\<forall>g' \<in> set xs. DailyGoal.date g' \<le> t \<longrightarrow> DailyGoal.date g' \<le> DailyGoal.date g)"
  using assms
proof (induction xs)
  case Nil
  then show ?case by simp
next
  case (Cons x xs)
  show ?case
  proof (cases "DailyGoal.date x \<le> t")
    case True
    with Cons.prems show ?thesis by auto
  next
    case False
    with Cons show ?thesis by auto
  qed
qed

lemma getDailyGoal_Some:
  assumes "getDailyGoal docs t = Some g"
  shows "g \<in> set docs \<and> DailyGoal.date g \<le> t \<and>
         (\<forall>g' \<in> set docs. DailyGoal.date g' \<le> t \<longrightarrow> DailyGoal.date g' \<le> DailyGoal.date g)"
proof -
  let ?xs = "sort_key (\<lambda>g. - DailyGoal.date g) (getAll docs)"
  from assms have f: "find (\<lambda>g. DailyGoal.date g \<le> t) ?xs = Some g"
    by (simp add: getDailyGoal_def Let_def split: if_splits)
  have "sorted (map (\<lambda>g. - DailyGoal.date g) ?xs)" by simp
  from find_sorted_desc [OF this f] show ?thesis by simp
qed

lemma getDailyGoal_None:
  "getDailyGoal docs t = None \<longleftrightarrow> (\<forall>g \<in> set docs. t < DailyGoal.date g)"
proof (cases "getAll docs = []")
  case True
  then have "set (getAll docs) = {}" by simp
  then have "docs = []" by simp
  then show ?thesis by (simp add: getDailyGoal_def getAll_def)
next
  case False
  then show ?thesis
    by (auto simp: getDailyGoal_def Let_def find_None_iff not_le)
qed

text \<open>
  C5. Resolving the goals for a target date finds a stored snapshot whose date is at most
  the target and is the greatest such date, and takes its goals; when no stored snapshot
  has a date at or before the target, nothing is found and the resolved goals are the
  default set, which gives every language the goal 0. With snapshots for 2024-01-01 and
  2024-01-10 (stored in either order), 2024-01-05 resolves to the snapshot of 2024-01-01
  and 2023-12-31 to the default.
\<close>

theorem getDailyGoal_carry_forward:
  "(case getDailyGoal (db s) t of
      Some g \<Rightarrow>
        g \<in> set (db s) \<and> DailyGoal.date g \<le> t \<and>
        (\<forall>g' \<in> set (db s). DailyGoal.date g' \<le> t \<longrightarrow> DailyGoal.date g' \<le> DailyGoal.date g) \<and>
        goalInputs (loadGoals t now s) = goals g
    | None \<Rightarrow>
        (\<forall>g \<in> set (db s). t < DailyGoal.date g) \<and>
        goalInputs (loadGoals t now s) = DEFAULT_DAILY_GOAL) \<and>
   map DEFAULT_DAILY_GOAL LANGUAGES = [Some 0, Some 0, Some 0, Some 0] \<and>
   getDailyGoal [goalJan1, goalJan10] (isoDay 2024 1 5) = Some goalJan1 \<and>
   getDailyGoal [goalJan10, goalJan1] (isoDay 2024 1 5) = Some goalJan1 \<and>
   getDailyGoal [goalJan1, goalJan10] (isoDay 2023 12 31) = None \<and>
   goalInputs (loadGoals (isoDay 2023 12 31) now (s\<lparr>db := [goalJan1, goalJan10]\<rparr>))
     = DEFAULT_DAILY_GOAL"
proof -
  have gen: "case getDailyGoal (db s) t of
      Some g \<Rightarrow>
        g \<in> set (db s) \<and> DailyGoal.date g \<le> t \<and>
        (\<forall>g' \<in> set (db s). DailyGoal.date g' \<le> t \<longrightarrow> DailyGoal.date g' \<le> DailyGoal.date g) \<and>
        goalInputs (loadGoals t now s) = goals g
    | None \<Rightarrow>
        (\<forall>g \<in> set (db s). t < DailyGoal.date g) \<and>
        goalInputs (loadGoals t now s) = DEFAULT_DAILY_GOAL"
  proof (cases "getDailyGoal (db s) t")
    case None
    then show ?thesis
      using getDailyGoal_None [of "db s" t] by (simp add: loadGoals_def)
  next
    case (Some g)
    then show ?thesis
      using getDailyGoal_Some [OF Some] by (simp add: loadGoals_def)
  qed
  have d: "DailyGoal.date goalJan1 = 1704067200000" "DailyGoal.date goalJan10 = 1704844800000"
    "isoDay 2024 1 5 = 1704412800000" "isoDay 2023 12 31 = 1703980800000"
    by (simp_all add: goalJan1_def goalJan10_def isoDay_def isoTime_def daysFromCivil_def)
  have e1: "getDailyGoal [goalJan1, goalJan10] (isoDay 2024 1 5) = Some goalJan1"
    and e2: "getDailyGoal [goalJan10, goalJan1] (isoDay 2024 1 5) = Some goalJan1"
    and e3: "getDailyGoal [goalJan1, goalJan10] (isoDay 2023 12 31) = None"
    by (simp_all add: getDailyGoal_def getAll_def d)
  have e4: "goalInputs (loadGoals (isoDay 2023 12 31) now (s\<lparr>db := [goalJan1, goalJan10]\<rparr>))
     = DEFAULT_DAILY_GOAL"
    by (simp add: loadGoals_def e3)
  have z: "map DEFAULT_DAILY_GOAL LANGUAGES = [Some 0, Some 0, Some 0, Some 0]"
    by (simp add: DEFAULT_DAILY_GOAL_def LANGUAGES_def)
  from gen e1 e2 e3 e4 z show ?thesis by simp
qed

theorem getDailyGoal_carry_forward_witness:
  "(let s = \<lparr> db = [goalJan10, goalJan1], goalInputs = Map.empty, languageVisibility = Map.empty \<rparr>
    in map (goalInputs (loadGoals (isoDay 2024 1 5) 0 s)) LANGUAGES = [Some 0, Some 20, Some 45, Some 0] \<and>
       map (goalInputs (loadGoals (isoDay 2023 12 31) 0 s)) LANGUAGES = [Some 0, Some 0, Some 0, Some 0])"
proof -
  let ?s = "\<lparr> db = [goalJan10, goalJan1], goalInputs = Map.empty, languageVisibility = Map.empty \<rparr>"
  have d: "DailyGoal.date goalJan1 = 1704067200000" "DailyGoal.date goalJan10 = 1704844800000"
    "isoDay 2024 1 5 = 1704412800000" "isoDay 2023 12 31 = 1703980800000"
    by (simp_all add: goalJan1_def goalJan10_def isoDay_def isoTime_def daysFromCivil_def)
  have e: "getDailyGoal [goalJan10, goalJan1] (isoDay 2024 1 5) = Some goalJan1"
    "getDailyGoal [goalJan10, goalJan1] (isoDay 2023 12 31) = None"
    by (simp_all add: getDailyGoal_def getAll_def d)
  have a: "goalInputs (loadGoals (isoDay 2024 1 5) 0 ?s) = goals goalJan1"
    using getDailyGoal_carry_forward [where s = ?s and t = "isoDay 2024 1 5" and now = 0] e(1)
    by simp
  have b: "goalInputs (loadGoals (isoDay 2023 12 31) 0 ?s) = DEFAULT_DAILY_GOAL"
    using getDailyGoal_carry_forward [where s = ?s and t = "isoDay 2023 12 31" and now = 0] e(2)
    by simp
  show ?thesis
    unfolding Let_def a b
    by (simp add: goalJan1_def DEFAULT_DAILY_GOAL_def LANGUAGES_def)
qed





section \<open>Properties of the aggregation passes\<close>











section \<open>Properties of the import\<close>

lemma saveRecord_ok:
  assumes "record \<noteq> JNull" and "member record ''sessionId'' = Some k" and "validKey k"
  shows "saveRecord record st = Inr ((k, completeRecord record) # filter (\<lambda>e. fst e \<noteq> k) st)"
  using assms by (simp add: saveRecord_def)

lemma saveEach_ok:
  assumes "\<forall>r \<in> set rs. r \<noteq> JNull \<and> (\<exists>k. member r ''sessionId'' = Some k \<and> validKey k)"
  shows "calls (saveEach rs s) = calls s @ rs \<and>
         failure (saveEach rs s) = failure s \<and>
         fst ` set (store (saveEach rs s))
           = fst ` set (store s) \<union> (\<lambda>r. the (member r ''sessionId'')) ` set rs"
  using assms
proof (induction rs arbitrary: s)
  case Nil
  show ?case by simp
next
  case (Cons r rs)
  then obtain k where r: "r \<noteq> JNull" and k: "member r ''sessionId'' = Some k" and v: "validKey k"
    by auto
  let ?st = "(k, completeRecord r) # filter (\<lambda>e. fst e \<noteq> k) (store s)"
  let ?s' = "s\<lparr> calls := calls s @ [r], store := ?st \<rparr>"
  have step: "saveEach (r # rs) s = saveEach rs ?s'"
    using saveRecord_ok [OF r k v, of "store s"] by simp
  have keys: "fst ` set ?st = insert k (fst ` set (store s))"
    by auto
  from Cons.prems have "\<forall>r \<in> set rs. r \<noteq> JNull \<and> (\<exists>k. member r ''sessionId'' = Some k \<and> validKey k)"
    by simp
  from Cons.IH [OF this, of ?s']
  have ih1: "calls (saveEach rs ?s') = calls ?s' @ rs"
    and ih2: "failure (saveEach rs ?s') = failure ?s'"
    and ih3: "fst ` set (store (saveEach rs ?s'))
              = fst ` set (store ?s') \<union> (\<lambda>r. the (member r ''sessionId'')) ` set rs"
    by blast+
  have st': "store ?s' = ?st" by simp
  show ?case
    unfolding step ih1 ih2 ih3 st' keys by (simp add: k)
qed

text \<open>
  C8. A document without the \<open>version\<close> field, or whose \<open>records\<close> field is missing or
  not an array, fails the import before any \<open>saveRecord\<close> call: no call is issued and
  the store is unchanged; the same holds for a text that does not parse. For a document
  with a version, whose \<open>records\<close> array holds records that \<open>saveRecord\<close> accepts (none is
  null and each has a \<open>sessionId\<close> that is a valid key), \<open>saveRecord\<close> is called for every
  element of the array, in order, the import succeeds, and afterwards the store has an
  entry for each of them.
\<close>

theorem importData_all_or_nothing:
  "(member data ''version'' = None \<or> member data ''records'' = None \<or>
    \<not> isArray (member data ''records'')
    \<longrightarrow> calls (importData (Some data) st) = [] \<and>
        store (importData (Some data) st) = st \<and>
        failure (importData (Some data) st) \<noteq> None) \<and>
   importData None st = \<lparr> calls = [], store = st, failure = Some SyntaxError \<rparr> \<and>
   (truthy (member data ''version'') \<and> member data ''records'' = Some (JArr rs) \<and>
    (\<forall>r \<in> set rs. r \<noteq> JNull \<and> (\<exists>k. member r ''sessionId'' = Some k \<and> validKey k))
    \<longrightarrow> calls (importData (Some data) st) = rs \<and>
        failure (importData (Some data) st) = None \<and>
        fst ` set (store (importData (Some data) st))
          = fst ` set st \<union> (\<lambda>r. the (member r ''sessionId'')) ` set rs)"
proof (intro conjI impI)
  assume "member data ''version'' = None \<or> member data ''records'' = None \<or>
    \<not> isArray (member data ''records'')"
  then have bad: "\<not> truthy (member data ''version'') \<or> \<not> truthy (member data ''records'')
                  \<or> \<not> isArray (member data ''records'')"
    by (auto simp: truthy_def)
  then show "calls (importData (Some data) st) = []"
    and "store (importData (Some data) st) = st"
    and "failure (importData (Some data) st) \<noteq> None"
    by (auto simp: importData_def Let_def)
next
  show "importData None st = \<lparr> calls = [], store = st, failure = Some SyntaxError \<rparr>"
    by (simp add: importData_def)
next
  assume h: "truthy (member data ''version'') \<and> member data ''records'' = Some (JArr rs) \<and>
    (\<forall>r \<in> set rs. r \<noteq> JNull \<and> (\<exists>k. member r ''sessionId'' = Some k \<and> validKey k))"
  then have "data \<noteq> JNull"
    by (auto simp: member_def)
  with h have run: "importData (Some data) st
                    = saveEach rs \<lparr> calls = [], store = st, failure = None \<rparr>"
    by (simp add: importData_def Let_def truthy_def isArray_def)
  from h have "\<forall>r \<in> set rs. r \<noteq> JNull \<and> (\<exists>k. member r ''sessionId'' = Some k \<and> validKey k)"
    by simp
  from saveEach_ok [OF this, of "\<lparr> calls = [], store = st, failure = None \<rparr>"]
  show "calls (importData (Some data) st) = rs"
    and "failure (importData (Some data) st) = None"
    and "fst ` set (store (importData (Some data) st))
          = fst ` set st \<union> (\<lambda>r. the (member r ''sessionId'')) ` set rs"
    unfolding run by simp_all
qed

theorem importData_all_or_nothing_witness:
  "calls (importData (Some noVersionDocument) []) = [] \<and>
   store (importData (Some noVersionDocument) []) = [] \<and>
   calls (importData (Some goodDocument) []) = [jsonRecord ''s1'' 600, jsonRecord ''s2'' 300] \<and>
   failure (importData (Some goodDocument) []) = None \<and>
   fst ` set (store (importData (Some goodDocument) [])) = {JStr ''s1'', JStr ''s2''}"
proof -
  have bad: "member noVersionDocument ''version'' = None \<or>
             member noVersionDocument ''records'' = None \<or>
             \<not> isArray (member noVersionDocument ''records'')"
    by (simp add: member_def noVersionDocument_def)
  have good: "truthy (member goodDocument ''version'') \<and>
      member goodDocument ''records'' = Some (JArr [jsonRecord ''s1'' 600, jsonRecord ''s2'' 300]) \<and>
      (\<forall>r \<in> set [jsonRecord ''s1'' 600, jsonRecord ''s2'' 300].
         r \<noteq> JNull \<and> (\<exists>k. member r ''sessionId'' = Some k \<and> validKey k))"
    by (simp add: member_def goodDocument_def truthy_def jsonRecord_def)
  have keys: "member (jsonRecord ''s1'' 600) ''sessionId'' = Some (JStr ''s1'')"
    "member (jsonRecord ''s2'' 300) ''sessionId'' = Some (JStr ''s2'')"
    by (simp_all add: member_def jsonRecord_def)
  show ?thesis
    using importData_all_or_nothing [where data = noVersionDocument and st = "[]" and rs = "[]"]
      importData_all_or_nothing [where data = goodDocument and st = "[]"
        and rs = "[jsonRecord ''s1'' 600, jsonRecord ''s2'' 300]"]
      bad good
    by (auto simp: keys)
qed

end
